theory Spec2Isabelle
  imports Main "HOL-Library.Word"
begin

section \<open>Data model\<close>

text \<open>
  The plug-in \<^verbatim>\<open>tasks/imageoptim.js\<close> works on the file system, the console and child
  processes. These are made explicit: a file system maps a resolved path to a node, the
  console and the started processes are a trace of events, and the outcome of a promise
  is a value.
\<close>

type_synonym byte = "8 word"
type_synonym path = string

datatype node = File "byte list" | Dir

type_synonym filesystem = "path \<Rightarrow> node option"

text \<open>Exceptions of the Node runtime and of the plug-in (\<^verbatim>\<open>new Error(message)\<close>).\<close>

datatype error = ENOENT | EISDIR | EEXIST | TypeError | Error string

text \<open>
  What the plug-in does to the outside: a line on the console, a process started with
  \<^verbatim>\<open>spawn(command, args, {cwd})\<close> together with the text written to its standard
  input, and a command line run through the shell with \<^verbatim>\<open>exec(command, {cwd})\<close>.
\<close>

datatype event =
    Log string
  | Spawn string "string list" path string
  | Exec string path

record world =
  disk :: filesystem
  trace :: "event list"

text \<open>A finished child process: the files it leaves, the chunks it printed, its exit code
  (\<open>None\<close> is JavaScript's \<^verbatim>\<open>null\<close>, the code of a process killed by a signal).\<close>

record proc_result =
  fs_after :: filesystem
  stdout_data :: "string list"
  exit_code :: "int option"

text \<open>
  The libraries the plug-in calls are parameters of the model: the hash object of
  \<^verbatim>\<open>crypto.createHash('md5')\<close>, the functions of \<^verbatim>\<open>path\<close>, the directory listing,
  and the optimizer binary itself. \<open>path_resolve\<close> is \<^verbatim>\<open>path.resolve(p)\<close>, the
  resolution of a path against the working directory, which is also how the operating
  system reads a relative path; \<open>path_resolve_dirname\<close> is
  \<^verbatim>\<open>path.resolve(__dirname, p)\<close>. \<open>copySpecialSync\<close> stands for the two branches of
  \<^verbatim>\<open>fse.copySync\<close> that a flat file system cannot express: a directory as source, and
  a source that is its own destination.
\<close>

record 'h node_env =
  hash_create :: 'h
  hash_update :: "'h \<Rightarrow> byte list \<Rightarrow> 'h"
  hash_digest :: "'h \<Rightarrow> string"
  path_resolve :: "path \<Rightarrow> path"
  path_resolve_dirname :: "path \<Rightarrow> path"
  path_join :: "path \<Rightarrow> string \<Rightarrow> path"
  path_basename :: "path \<Rightarrow> string"
  readdirSync :: "filesystem \<Rightarrow> path \<Rightarrow> error + string list"
  copySpecialSync :: "filesystem \<Rightarrow> path \<Rightarrow> path \<Rightarrow> (error + unit) \<times> filesystem"
  spawn_run :: "string \<Rightarrow> string list \<Rightarrow> path \<Rightarrow> string \<Rightarrow> filesystem \<Rightarrow> proc_result"
  exec_run :: "string \<Rightarrow> path \<Rightarrow> filesystem \<Rightarrow> proc_result"

section \<open>File system primitives\<close>

definition node_at :: "'h node_env \<Rightarrow> filesystem \<Rightarrow> path \<Rightarrow> node option" where
  "node_at env fsys p = fsys (path_resolve env p)"

definition existsSync :: "'h node_env \<Rightarrow> filesystem \<Rightarrow> path \<Rightarrow> bool" where
  "existsSync env fsys p = (node_at env fsys p \<noteq> None)"

text \<open>\<^verbatim>\<open>fse.ensureDirSync\<close>: nothing to do for a directory, an error on a regular file,
  a new directory otherwise.\<close>

definition ensureDirSync :: "'h node_env \<Rightarrow> filesystem \<Rightarrow> path \<Rightarrow> (error + unit) \<times> filesystem" where
  "ensureDirSync env fsys p =
     (case node_at env fsys p of
        None \<Rightarrow> (Inr (), fsys(path_resolve env p \<mapsto> Dir))
      | Some Dir \<Rightarrow> (Inr (), fsys)
      | Some (File _) \<Rightarrow> (Inl EEXIST, fsys))"

text \<open>
  \<^verbatim>\<open>fse.copySync(src, dest)\<close>. The library looks at the source first, so a missing
  source is the first error. The destination is an option because the plug-in may pass
  \<^verbatim>\<open>undefined\<close>, which no version of the library accepts. A regular file is copied
  over whatever regular file is at the destination; a directory there is an error. The
  file system is flat, so the directories above the destination, which the library
  creates when they are missing, are not recorded.
\<close>

definition copySync :: "'h node_env \<Rightarrow> filesystem \<Rightarrow> path \<Rightarrow> path option \<Rightarrow> (error + unit) \<times> filesystem" where
  "copySync env fsys src dest_opt =
     (case node_at env fsys src of
        None \<Rightarrow> (Inl ENOENT, fsys)
      | Some source \<Rightarrow>
          (case dest_opt of
             None \<Rightarrow> (Inl TypeError, fsys)
           | Some dest \<Rightarrow>
               (case source of
                  Dir \<Rightarrow> copySpecialSync env fsys src dest
                | File bytes \<Rightarrow>
                    if path_resolve env src = path_resolve env dest
                    then copySpecialSync env fsys src dest
                    else (case node_at env fsys dest of
                            Some Dir \<Rightarrow> (Inl EISDIR, fsys)
                          | _ \<Rightarrow> (Inr (), fsys(path_resolve env dest \<mapsto> File bytes))))))"

section \<open>The checksum of a file\<close>

definition BUFFER_SIZE :: nat where
  "BUFFER_SIZE = 8192"

text \<open>
  \<^verbatim>\<open>fs.readSync(fd, buffer, 0, length)\<close> on a regular file whose descriptor stands at
  \<open>pos\<close>: the next bytes of the file, at most \<open>len\<close>, are written to the start of the
  buffer, and their number is returned. A read of a regular file is taken to return all
  the bytes asked for while the file has them.
\<close>

definition readSync :: "byte list \<Rightarrow> nat \<Rightarrow> byte list \<Rightarrow> nat \<Rightarrow> nat \<times> byte list" where
  "readSync content pos buffer len =
     (let chunk = take len (drop pos content)
      in (length chunk, chunk @ drop (length chunk) buffer))"

text \<open>The \<^verbatim>\<open>do ... while (bytesRead === BUFFER_SIZE)\<close> loop of \<^verbatim>\<open>md5FileSync\<close>.\<close>

function readLoop :: "'h node_env \<Rightarrow> byte list \<Rightarrow> nat \<Rightarrow> byte list \<Rightarrow> 'h \<Rightarrow> 'h" where
  "readLoop env content pos buffer hash =
     (case readSync content pos buffer BUFFER_SIZE of
        (bytesRead, buffer') \<Rightarrow>
          let hash' = hash_update env hash (take bytesRead buffer')
          in if bytesRead = BUFFER_SIZE
             then readLoop env content (pos + bytesRead) buffer' hash'
             else hash')"
  by pat_completeness auto
termination
  by (relation "measure (\<lambda>(env, content, pos, buffer, hash). length content - pos)")
     (auto simp: readSync_def BUFFER_SIZE_def Let_def)

text \<open>
  \<^verbatim>\<open>md5FileSync(filename)\<close>. \<^verbatim>\<open>openSync\<close> throws on a missing file; a directory opens,
  and the first read of it throws. The buffer of \<^verbatim>\<open>new Buffer(BUFFER_SIZE)\<close> starts
  with arbitrary content, zeros here.
\<close>

definition md5FileSync :: "'h node_env \<Rightarrow> filesystem \<Rightarrow> path \<Rightarrow> error + string" where
  "md5FileSync env fsys filename =
     (case node_at env fsys filename of
        None \<Rightarrow> Inl ENOENT
      | Some Dir \<Rightarrow> Inl EISDIR
      | Some (File content) \<Rightarrow>
          Inr (hash_digest env
                 (readLoop env content 0 (replicate BUFFER_SIZE 0) (hash_create env))))"

text \<open>The digest of the whole content given to the hash object in one call.\<close>

definition md5_one_pass :: "'h node_env \<Rightarrow> byte list \<Rightarrow> string" where
  "md5_one_pass env content = hash_digest env (hash_update env (hash_create env) content)"

text \<open>The contract of \<^verbatim>\<open>hash.update\<close>: data given in pieces is data given at once.\<close>

definition streaming :: "'h node_env \<Rightarrow> bool" where
  "streaming env =
     (\<forall>h a b. hash_update env (hash_update env h a) b = hash_update env h (a @ b))"

section \<open>Promises\<close>

text \<open>
  How a call that returns a promise ends: the promise is resolved, or rejected with an
  error; the call itself throws before it returns a promise; or an event handler throws
  later, which leaves the promise pending and reaches the runtime as an uncaught
  exception.
\<close>

datatype outcome = Resolved | Rejected error | Thrown error | Uncaught error

text \<open>A promise is the work that settles it, run on the world of the moment.\<close>

type_synonym promise = "world \<Rightarrow> outcome \<times> world"

definition q_promise :: promise where
  "q_promise = (\<lambda>w. (Resolved, w))"

text \<open>\<^verbatim>\<open>promise.then(callback)\<close>: the callback runs once the promise is resolved, and an
  exception it throws rejects the new promise.\<close>

definition then_promise :: "promise \<Rightarrow> (world \<Rightarrow> outcome \<times> world) \<Rightarrow> promise" where
  "then_promise p callback =
     (\<lambda>w. case p w of
        (Resolved, w1) \<Rightarrow>
          (case callback w1 of
             (Thrown e, w2) \<Rightarrow> (Rejected e, w2)
           | (r, w2) \<Rightarrow> (r, w2))
      | (r, w1) \<Rightarrow> (r, w1))"

text \<open>\<^verbatim>\<open>promise.done(done)\<close>: a rejection is thrown again, with no handler left.\<close>

definition done_promise :: "promise \<Rightarrow> promise" where
  "done_promise p =
     (\<lambda>w. case p w of
        (Rejected e, w1) \<Rightarrow> (Uncaught e, w1)
      | (r, w1) \<Rightarrow> (r, w1))"

text \<open>\<^verbatim>\<open>array.forEach\<close> with a callback that changes the variables \<open>s\<close> of its closure and
  the world, and may throw; what it did before it threw stays done.\<close>

fun forEachE ::
  "('a \<Rightarrow> 's \<Rightarrow> world \<Rightarrow> (error + 's) \<times> world) \<Rightarrow> 'a list \<Rightarrow> 's \<Rightarrow> world \<Rightarrow> (error + 's) \<times> world"
where
  "forEachE callback [] s w = (Inr s, w)"
| "forEachE callback (x # xs) s w =
     (case callback x s w of
        (Inl e, w1) \<Rightarrow> (Inl e, w1)
      | (Inr s1, w1) \<Rightarrow> forEachE callback xs s1 w1)"

section \<open>Console and command lines\<close>

definition newline :: char where
  "newline = CHR 0x0A"

definition console_log :: "string \<Rightarrow> world \<Rightarrow> world" where
  "console_log line w = w\<lparr>trace := trace w @ [Log line]\<rparr>"

text \<open>\<^verbatim>\<open>str.replace(/\n+$/, '')\<close>\<close>

definition trimTrailingNewlines :: "string \<Rightarrow> string" where
  "trimTrailingNewlines s = rev (dropWhile (\<lambda>c. c = newline) (rev s))"

text \<open>\<^verbatim>\<open>files.join('\n')\<close>\<close>

fun joinLines :: "string list \<Rightarrow> string" where
  "joinLines [] = []"
| "joinLines [x] = x"
| "joinLines (x # y # ys) = x @ [newline] @ joinLines (y # ys)"

text \<open>The handler of the \<^verbatim>\<open>data\<close> events of the child's standard output.\<close>

definition log_stdout :: "string list \<Rightarrow> world \<Rightarrow> world" where
  "log_stdout chunks w = w\<lparr>trace := trace w @ map (\<lambda>message. Log (trimTrailingNewlines message)) chunks\<rparr>"

record task_options =
  jpegMini :: bool
  imageAlpha :: bool
  quitAfter :: bool
  cache :: "path option"

record processor_options = task_options +
  cliPath :: path

definition errorMessage :: string where
  "errorMessage = ''ImageOptim-CLI exited with a failure status''"

definition issuesPage :: string where
  "issuesPage = ''https://github.com/JamieMason/grunt-imageoptim/issues/new''"

text \<open>The characters of \<^verbatim>\<open>\s\<close> below 128.\<close>

definition isWhitespace :: "char \<Rightarrow> bool" where
  "isWhitespace c = (c \<in> set [CHR 0x20, CHR 0x09, CHR 0x0A, CHR 0x0B, CHR 0x0C, CHR 0x0D])"

definition escapeWhitespace :: "string \<Rightarrow> string" where
  "escapeWhitespace s = concat (map (\<lambda>c. if isWhitespace c then [CHR 0x5C, CHR 0x20] else [c]) s)"

definition getCommandByDirectory :: "path \<Rightarrow> 'a task_options_scheme \<Rightarrow> string" where
  "getCommandByDirectory directory options =
     ''./imageOptim''
     @ (if quitAfter options then '' --quit'' else [])
     @ (if imageAlpha options then '' --image-alpha'' else [])
     @ (if jpegMini options then '' --jpeg-mini'' else [])
     @ '' --directory '' @ escapeWhitespace directory"

definition executeDirectoryCommand :: "'h node_env \<Rightarrow> string \<Rightarrow> path \<Rightarrow> promise" where
  "executeDirectoryCommand env command cwd w =
     (let w1 = w\<lparr>trace := trace w @ [Exec command cwd]\<rparr>;
          r = exec_run env command cwd (disk w1);
          w2 = log_stdout (stdout_data r) (w1\<lparr>disk := fs_after r\<rparr>)
      in if exit_code r = Some 0 then (Resolved, w2) else (Rejected (Error errorMessage), w2))"

definition getCliFlags :: "'a task_options_scheme \<Rightarrow> string list" where
  "getCliFlags opts =
     (if quitAfter opts then [''--quit''] else [])
     @ (if imageAlpha opts then [''--image-alpha''] else [])
     @ (if jpegMini opts then [''--jpeg-mini''] else [])"

section \<open>Processing a list of files\<close>

text \<open>\<^verbatim>\<open>if (opts.cache)\<close>: the option is set, and not to the empty string.\<close>

definition cacheEnabled :: "'a task_options_scheme \<Rightarrow> bool" where
  "cacheEnabled opts = (case cache opts of None \<Rightarrow> False | Some cache_dir \<Rightarrow> cache_dir \<noteq> [])"

text \<open>
  The callback of \<^verbatim>\<open>old_files.forEach\<close>. Its closure holds the new list \<open>files\<close> and
  the object \<open>in_cache_path\<close>, a map from a file to the path of its cache entry.
\<close>

definition cacheStep ::
  "'h node_env \<Rightarrow> path \<Rightarrow> path \<Rightarrow> path list \<times> (path \<rightharpoonup> path) \<Rightarrow> world
     \<Rightarrow> (error + path list \<times> (path \<rightharpoonup> path)) \<times> world"
where
  "cacheStep env cache_dir file s w =
     (case s of (files, in_cache_path) \<Rightarrow>
        (case md5FileSync env (disk w) file of
           Inl e \<Rightarrow> (Inl e, w)
         | Inr md5 \<Rightarrow>
             let entry = path_join env cache_dir md5;
                 in_cache_path' = in_cache_path(file \<mapsto> entry)
             in if existsSync env (disk w) entry
                then (let w1 = console_log (''From cache file '' @ path_basename env file) w
                      in case copySync env (disk w1) entry (Some file) of
                           (Inl e, d) \<Rightarrow> (Inl e, w1\<lparr>disk := d\<rparr>)
                         | (Inr _, d) \<Rightarrow> (Inr (files, in_cache_path'), w1\<lparr>disk := d\<rparr>))
                else (Inr (files @ [file], in_cache_path'), w)))"

text \<open>The first part of \<^verbatim>\<open>processFiles\<close>, up to the list that goes to the optimizer.\<close>

definition cachePhase ::
  "'h node_env \<Rightarrow> path list \<Rightarrow> 'a task_options_scheme \<Rightarrow> world
     \<Rightarrow> (error + path list \<times> (path \<rightharpoonup> path)) \<times> world"
where
  "cachePhase env files opts w =
     (case cache opts of
        None \<Rightarrow> (Inr (files, Map.empty), w)
      | Some cache_dir \<Rightarrow>
          if cache_dir = [] then (Inr (files, Map.empty), w)
          else (case ensureDirSync env (disk w) cache_dir of
                  (Inl e, d) \<Rightarrow> (Inl e, w\<lparr>disk := d\<rparr>)
                | (Inr _, d) \<Rightarrow>
                    forEachE (cacheStep env cache_dir) files ([], Map.empty) (w\<lparr>disk := d\<rparr>)))"

text \<open>The callback of \<^verbatim>\<open>files.forEach\<close> in the handler of \<^verbatim>\<open>exit\<close>.\<close>

definition addToCacheStep ::
  "'h node_env \<Rightarrow> (path \<rightharpoonup> path) \<Rightarrow> path \<Rightarrow> unit \<Rightarrow> world \<Rightarrow> (error + unit) \<times> world"
where
  "addToCacheStep env in_cache_path file s w =
     (let w1 = console_log (''Add to cache '' @ path_basename env file) w
      in case copySync env (disk w1) file (in_cache_path file) of
           (Inl e, d) \<Rightarrow> (Inl e, w1\<lparr>disk := d\<rparr>)
         | (Inr _, d) \<Rightarrow> (Inr (), w1\<lparr>disk := d\<rparr>))"

text \<open>The handler of \<^verbatim>\<open>exit\<close>.\<close>

definition onExit ::
  "'h node_env \<Rightarrow> path list \<Rightarrow> (path \<rightharpoonup> path) \<Rightarrow> int option \<Rightarrow> world \<Rightarrow> outcome \<times> world"
where
  "onExit env files in_cache_path code w =
     (if code = Some 0
      then (case forEachE (addToCacheStep env in_cache_path) files ()
                   (console_log ''ImageOptim done!'' w) of
              (Inl e, w1) \<Rightarrow> (Uncaught e, w1)
            | (Inr _, w1) \<Rightarrow> (Resolved, w1))
      else (Rejected (Error errorMessage), w))"

text \<open>From \<^verbatim>\<open>spawn\<close> to the end of the child process.\<close>

definition runOptimizer ::
  "'h node_env \<Rightarrow> path list \<Rightarrow> (path \<rightharpoonup> path) \<Rightarrow> processor_options \<Rightarrow> world \<Rightarrow> outcome \<times> world"
where
  "runOptimizer env files in_cache_path opts w =
     (let input = joinLines files @ [newline];
          w1 = w\<lparr>trace := trace w @ [Spawn ''./imageOptim'' (getCliFlags opts) (cliPath opts) input]\<rparr>;
          r = spawn_run env ''./imageOptim'' (getCliFlags opts) (cliPath opts) input (disk w1);
          w2 = log_stdout (stdout_data r) (w1\<lparr>disk := fs_after r\<rparr>)
      in onExit env files in_cache_path (exit_code r) w2)"

definition processFiles :: "'h node_env \<Rightarrow> path list \<Rightarrow> processor_options \<Rightarrow> promise" where
  "processFiles env files opts w =
     (case cachePhase env files opts w of
        (Inl e, w1) \<Rightarrow> (Thrown e, w1)
      | (Inr (files', in_cache_path), w1) \<Rightarrow>
          if cacheEnabled opts \<and> files' = [] then (Resolved, w1)
          else runOptimizer env files' in_cache_path opts w1)"

section \<open>Processing a list of directories\<close>

definition getDirFiles :: "'h node_env \<Rightarrow> filesystem \<Rightarrow> path \<Rightarrow> error + path list" where
  "getDirFiles env fsys d =
     (case readdirSync env fsys d of
        Inl e \<Rightarrow> Inl e
      | Inr list \<Rightarrow> Inr (map (path_join env d) list))"

text \<open>The \<^verbatim>\<open>forEach\<close> that fills \<open>new_files\<close>.\<close>

fun collectDirFiles :: "'h node_env \<Rightarrow> filesystem \<Rightarrow> path list \<Rightarrow> path list \<Rightarrow> error + path list" where
  "collectDirFiles env fsys [] new_files = Inr new_files"
| "collectDirFiles env fsys (d # ds) new_files =
     (case getDirFiles env fsys d of
        Inl e \<Rightarrow> Inl e
      | Inr list \<Rightarrow> collectDirFiles env fsys ds (new_files @ list))"

definition processDirectories :: "'h node_env \<Rightarrow> path list \<Rightarrow> processor_options \<Rightarrow> promise" where
  "processDirectories env files opts w =
     (case collectDirFiles env (disk w) files [] of
        Inl e \<Rightarrow> (Thrown e, w)
      | Inr new_files \<Rightarrow> processFiles env new_files opts w)"

section \<open>Batches and the task\<close>

definition toUpperCase_char :: "char \<Rightarrow> char" where
  "toUpperCase_char c =
     (case map_of (zip ''abcdefghijklmnopqrstuvwxyz'' ''ABCDEFGHIJKLMNOPQRSTUVWXYZ'') c of
        Some u \<Rightarrow> u
      | None \<Rightarrow> c)"

fun firstUp :: "string \<Rightarrow> string" where
  "firstUp [] = []"
| "firstUp (c # cs) = toUpperCase_char c # cs"

text \<open>The two values of \<open>fileType\<close> that the task passes.\<close>

datatype file_type = FileType | DirType

fun fileTypeName :: "file_type \<Rightarrow> string" where
  "fileTypeName FileType = ''file''"
| "fileTypeName DirType = ''dir''"

text \<open>\<^verbatim>\<open>grunt.file.isFile\<close>, \<^verbatim>\<open>grunt.file.isDir\<close> and \<^verbatim>\<open>grunt.file.exists\<close>.\<close>

definition grunt_file_isFile :: "'h node_env \<Rightarrow> filesystem \<Rightarrow> path \<Rightarrow> bool" where
  "grunt_file_isFile env fsys p = (case node_at env fsys p of Some (File _) \<Rightarrow> True | _ \<Rightarrow> False)"

definition grunt_file_isDir :: "'h node_env \<Rightarrow> filesystem \<Rightarrow> path \<Rightarrow> bool" where
  "grunt_file_isDir env fsys p = (case node_at env fsys p of Some Dir \<Rightarrow> True | _ \<Rightarrow> False)"

definition grunt_file_exists :: "'h node_env \<Rightarrow> filesystem \<Rightarrow> path \<Rightarrow> bool" where
  "grunt_file_exists env fsys p = existsSync env fsys p"

text \<open>\<^verbatim>\<open>isFileType(fileType)\<close> picks the method of \<^verbatim>\<open>grunt.file\<close> by its name.\<close>

definition isFileType :: "'h node_env \<Rightarrow> filesystem \<Rightarrow> file_type \<Rightarrow> path \<Rightarrow> bool" where
  "isFileType env fsys fileType file =
     (let methodName = ''is'' @ firstUp (fileTypeName fileType)
      in if methodName = ''isFile'' then grunt_file_isFile env fsys file
         else grunt_file_isDir env fsys file)"

definition cliPaths :: "'h node_env \<Rightarrow> path list" where
  "cliPaths env =
     map (path_resolve_dirname env)
       [''../node_modules/imageoptim-cli/bin'', ''../../imageoptim-cli/bin'']"

text \<open>\<^verbatim>\<open>getPathToCli()\<close>: the first candidate that exists, \<^verbatim>\<open>undefined\<close> without one.\<close>

definition getPathToCli :: "'h node_env \<Rightarrow> filesystem \<Rightarrow> path option" where
  "getPathToCli env fsys =
     (case filter (grunt_file_exists env fsys) (cliPaths env) of
        [] \<Rightarrow> None
      | p # _ \<Rightarrow> Some p)"

definition toAbsolute :: "'h node_env \<Rightarrow> path \<Rightarrow> path" where
  "toAbsolute env relativePath = path_resolve env relativePath"

text \<open>
  \<^verbatim>\<open>processBatch\<close> runs while the task builds its chain, so it filters on the file
  system of that moment, \<open>fsys\<close>; the processor runs later, on the world the chain has
  reached.
\<close>

definition processBatch ::
  "'h node_env \<Rightarrow> filesystem \<Rightarrow> file_type \<Rightarrow> path \<Rightarrow> task_options \<Rightarrow> path list \<Rightarrow> promise \<Rightarrow> promise"
where
  "processBatch env fsys fileType cli options taskFiles promise =
     (let files = map (toAbsolute env) (filter (isFileType env fsys fileType) taskFiles);
          processor = (if fileType = DirType then processDirectories else processFiles)
      in if files = [] then promise
         else then_promise promise
                (\<lambda>w. processor env files
                        \<lparr>jpegMini = jpegMini options, imageAlpha = imageAlpha options,
                         quitAfter = quitAfter options, cache = cache options,
                         cliPath = cli\<rparr> w))"

text \<open>
  The function registered with \<^verbatim>\<open>grunt.registerMultiTask\<close>; \<open>task_files\<close> holds the
  \<^verbatim>\<open>src\<close> list of every file group. \<^verbatim>\<open>!cliPath\<close> also holds for the empty string.
\<close>

definition imageoptimTask :: "'h node_env \<Rightarrow> path list list \<Rightarrow> task_options \<Rightarrow> promise" where
  "imageoptimTask env task_files options w =
     (let unable = Error (''Unable to locate ImageOptim-CLI. Please raise issue at '' @ issuesPage)
      in case getPathToCli env (disk w) of
           None \<Rightarrow> (Thrown unable, w)
         | Some cli \<Rightarrow>
             if cli = [] then (Thrown unable, w)
             else done_promise
                    (foldl (\<lambda>promise src.
                              processBatch env (disk w) DirType cli options src
                                (processBatch env (disk w) FileType cli options src promise))
                       q_promise task_files) w)"

section \<open>A concrete project\<close>

text \<open>
  A small project on which the definitions are run: the directory \<^verbatim>\<open>images\<close> holds
  \<^verbatim>\<open>a.png\<close> and \<^verbatim>\<open>b.png\<close>, the cache \<^verbatim>\<open>.cache\<close> holds one entry, the one for the
  content of \<^verbatim>\<open>b.png\<close>. The hash object of this environment collects the bytes it is
  given, and its digest writes them in hexadecimal.
\<close>

definition hexDigit :: "nat \<Rightarrow> char" where
  "hexDigit n = ''0123456789abcdef'' ! n"

definition hexByte :: "byte \<Rightarrow> string" where
  "hexByte b = [hexDigit (unat b div 16), hexDigit (unat b mod 16)]"

definition demo_cli :: path where
  "demo_cli = ''/plugin/tasks/../node_modules/imageoptim-cli/bin''"

definition demo_disk :: filesystem where
  "demo_disk =
     [''/proj/images'' \<mapsto> Dir,
      ''/proj/images/a.png'' \<mapsto> File [1, 2, 3],
      ''/proj/images/b.png'' \<mapsto> File [4, 5],
      ''/proj/empty'' \<mapsto> Dir,
      ''/proj/.cache'' \<mapsto> Dir,
      ''/proj/.cache/0405'' \<mapsto> File [9],
      ''/plugin/tasks/../node_modules/imageoptim-cli/bin'' \<mapsto> Dir]"

definition demo_world :: world where
  "demo_world = \<lparr>disk = demo_disk, trace = []\<rparr>"

text \<open>An optimizer that shortens \<^verbatim>\<open>a.png\<close> and succeeds, and one that fails.\<close>

definition demo_spawn :: "string \<Rightarrow> string list \<Rightarrow> path \<Rightarrow> string \<Rightarrow> filesystem \<Rightarrow> proc_result" where
  "demo_spawn command args cwd input fsys =
     \<lparr>fs_after = fsys(''/proj/images/a.png'' \<mapsto> File [1, 2]),
      stdout_data = [''a.png done'' @ [newline]],
      exit_code = Some 0\<rparr>"

definition failing_spawn :: "string \<Rightarrow> string list \<Rightarrow> path \<Rightarrow> string \<Rightarrow> filesystem \<Rightarrow> proc_result" where
  "failing_spawn command args cwd input fsys =
     \<lparr>fs_after = fsys, stdout_data = [], exit_code = Some 1\<rparr>"

definition demo_env :: "byte list node_env" where
  "demo_env =
     \<lparr>hash_create = [],
      hash_update = (\<lambda>h chunk. h @ chunk),
      hash_digest = (\<lambda>h. concat (map hexByte h)),
      path_resolve = (\<lambda>p. if take 1 p = ''/'' then p else ''/proj/'' @ p),
      path_resolve_dirname = (\<lambda>p. ''/plugin/tasks/'' @ p),
      path_join = (\<lambda>d f. d @ ''/'' @ f),
      path_basename = (\<lambda>p. rev (takeWhile (\<lambda>c. c \<noteq> CHR ''/'') (rev p))),
      readdirSync = (\<lambda>fsys d. if d = ''/proj/images'' then Inr [''a.png'', ''b.png'']
                               else if d = ''/proj/empty'' then Inr [] else Inl ENOENT),
      copySpecialSync = (\<lambda>fsys src dest. (Inl EISDIR, fsys)),
      spawn_run = demo_spawn,
      exec_run = (\<lambda>command cwd fsys. \<lparr>fs_after = fsys, stdout_data = [], exit_code = Some 0\<rparr>)\<rparr>"

definition failing_env :: "byte list node_env" where
  "failing_env = demo_env\<lparr>spawn_run := failing_spawn\<rparr>"

definition demo_options :: task_options where
  "demo_options = \<lparr>jpegMini = False, imageAlpha = False, quitAfter = False, cache = Some ''.cache''\<rparr>"

definition plain_options :: task_options where
  "plain_options = \<lparr>jpegMini = False, imageAlpha = False, quitAfter = True, cache = None\<rparr>"

definition demo_opts :: processor_options where
  "demo_opts = \<lparr>jpegMini = False, imageAlpha = False, quitAfter = False, cache = Some ''.cache'',
                cliPath = demo_cli\<rparr>"

definition plain_opts :: processor_options where
  "plain_opts = \<lparr>jpegMini = False, imageAlpha = False, quitAfter = True, cache = None,
                 cliPath = demo_cli\<rparr>"




section \<open>Reading a trace\<close>

text \<open>The processes a trace has started, by \<^verbatim>\<open>spawn\<close> or through the shell, in order;
  and the shell commands among them.\<close>

definition isProcess :: "event \<Rightarrow> bool" where
  "isProcess e = (case e of Log _ \<Rightarrow> False | _ \<Rightarrow> True)"

definition isExec :: "event \<Rightarrow> bool" where
  "isExec e = (case e of Exec _ _ \<Rightarrow> True | _ \<Rightarrow> False)"

definition processes :: "event list \<Rightarrow> event list" where
  "processes t = filter isProcess t"

text \<open>A trace that continues another one with lines on the console only.\<close>

definition logged :: "event list \<Rightarrow> event list \<Rightarrow> bool" where
  "logged t t' = (\<exists>ls. t' = t @ map Log ls)"

section \<open>The checksum reads the whole file\<close>

declare readLoop.simps [simp del]

text \<open>
  From any position and with any hash state, the loop feeds the rest of the file to the
  hash object, whatever the buffer held before. A file whose remaining length is a
  multiple of the buffer size ends with a read of no bytes, and an update with none.
\<close>

lemma readLoop_eq:
  assumes "streaming env"
  shows "readLoop env content pos buffer h = hash_update env h (drop pos content)"
  using assms
proof (induction env content pos buffer h rule: readLoop.induct)
  case (1 env content pos buffer hash)
  define chunk where "chunk = take BUFFER_SIZE (drop pos content)"
  have rs: "readSync content pos buffer BUFFER_SIZE = (length chunk, chunk @ drop (length chunk) buffer)"
    by (simp add: readSync_def chunk_def Let_def)
  have unfold: "readLoop env content pos buffer hash =
      (if length chunk = BUFFER_SIZE
       then readLoop env content (pos + length chunk) (chunk @ drop (length chunk) buffer)
              (hash_update env hash chunk)
       else hash_update env hash chunk)"
    by (subst readLoop.simps) (simp add: rs)
  show ?case
  proof (cases "length chunk = BUFFER_SIZE")
    case True
    have "readLoop env content (pos + length chunk) (chunk @ drop (length chunk) buffer)
            (hash_update env hash chunk)
          = hash_update env (hash_update env hash chunk) (drop (pos + length chunk) content)"
      using "1.IH" [OF rs [symmetric] _ True] "1.prems" by simp
    also have "\<dots> = hash_update env hash (chunk @ drop (pos + length chunk) content)"
      using "1.prems" unfolding streaming_def by blast
    also have "chunk @ drop (pos + length chunk) content = drop pos content"
      unfolding chunk_def using True
      by (metis add.commute append_take_drop_id drop_drop chunk_def)
    finally show ?thesis using True unfold by simp
  next
    case False
    then have "chunk = drop pos content"
      unfolding chunk_def by (simp add: BUFFER_SIZE_def min_def split: if_splits)
    then show ?thesis using False unfold by simp
  qed
qed

lemma streaming_demo_env: "streaming demo_env"
  by (simp add: streaming_def demo_env_def)

lemma streaming_failing_env: "streaming failing_env"
  by (simp add: streaming_def demo_env_def failing_env_def)

text \<open>
  C6: for every regular file, the checksum that \<open>md5FileSync\<close> computes, reading chunks of
  8192 bytes and taking the digest after the end of the file, is the digest of the whole
  content given to the hash object at once, for a hash object that keeps the contract of
  \<^verbatim>\<open>update\<close>. The file's length is arbitrary, a multiple of 8192 included.
\<close>

theorem md5FileSync_one_pass:
  assumes "streaming env" and "node_at env fsys filename = Some (File content)"
  shows "md5FileSync env fsys filename = Inr (md5_one_pass env content)"
  using assms by (simp add: md5FileSync_def md5_one_pass_def readLoop_eq)

text \<open>A file of exactly 8192 bytes.\<close>

theorem md5FileSync_one_pass_witness:
  "streaming demo_env
   \<and> node_at demo_env [''/proj/raw'' \<mapsto> File (replicate 8192 7)] ''/proj/raw''
       = Some (File (replicate 8192 7))
   \<and> length (replicate 8192 (7 :: byte)) = BUFFER_SIZE
   \<and> md5FileSync demo_env [''/proj/raw'' \<mapsto> File (replicate 8192 7)] ''/proj/raw''
       = Inr (md5_one_pass demo_env (replicate 8192 7))"
proof -
  have n: "node_at demo_env [''/proj/raw'' \<mapsto> File (replicate 8192 7)] ''/proj/raw''
             = Some (File (replicate 8192 7))"
    by (simp add: node_at_def demo_env_def)
  show ?thesis
    using md5FileSync_one_pass [OF streaming_demo_env n] n streaming_demo_env
    by (simp add: BUFFER_SIZE_def)
qed

section \<open>Empty batches and the missing binary\<close>

text \<open>
  C8: when no entry of the task's list passes the filter of the batch, \<open>processBatch\<close>
  returns the promise it was given: no processor is attached to the chain, so none runs
  and no process is started for the batch.
\<close>

theorem processBatch_empty:
  assumes "filter (isFileType env fsys fileType) taskFiles = []"
  shows "processBatch env fsys fileType cli options taskFiles promise = promise"
  using assms by (simp add: processBatch_def)

theorem processBatch_empty_witness:
  "filter (isFileType demo_env demo_disk FileType) [''images'', ''missing.png''] = []
   \<and> processBatch demo_env demo_disk FileType demo_cli demo_options [''images'', ''missing.png''] q_promise
       = q_promise"
proof -
  have h: "filter (isFileType demo_env demo_disk FileType) [''images'', ''missing.png''] = []"
    by (simp add: isFileType_def toUpperCase_char_def grunt_file_isFile_def node_at_def
        demo_env_def demo_disk_def)
  show ?thesis using processBatch_empty [OF h] h by simp
qed

lemma getPathToCli_None:
  assumes "\<forall>p\<in>set (cliPaths env). \<not> grunt_file_exists env fsys p"
  shows "getPathToCli env fsys = None"
proof -
  have "filter (grunt_file_exists env fsys) (cliPaths env) = []"
    using assms by (simp add: filter_empty_conv)
  then show ?thesis by (simp add: getPathToCli_def)
qed

text \<open>
  C7: when none of the candidate locations of the optimizer exists, the task throws the
  error that names the issue tracker, and the world is as it was: no batch was
  dispatched and no process started.
\<close>

theorem task_fails_without_cli:
  assumes "\<forall>p\<in>set (cliPaths env). \<not> grunt_file_exists env (disk w) p"
  shows "imageoptimTask env task_files options w
           = (Thrown (Error (''Unable to locate ImageOptim-CLI. Please raise issue at '' @ issuesPage)), w)"
  using getPathToCli_None [OF assms] by (simp add: imageoptimTask_def)

theorem task_fails_without_cli_witness:
  "\<not> grunt_file_exists demo_env Map.empty ''/plugin/tasks/../node_modules/imageoptim-cli/bin''
   \<and> \<not> grunt_file_exists demo_env Map.empty ''/plugin/tasks/../../imageoptim-cli/bin''
   \<and> imageoptimTask demo_env [[''images'']] demo_options \<lparr>disk = Map.empty, trace = []\<rparr>
       = (Thrown (Error ''Unable to locate ImageOptim-CLI. Please raise issue at https://github.com/JamieMason/grunt-imageoptim/issues/new''),
          \<lparr>disk = Map.empty, trace = []\<rparr>)"
proof -
  have h: "\<forall>p\<in>set (cliPaths demo_env).
             \<not> grunt_file_exists demo_env (disk \<lparr>disk = Map.empty, trace = []\<rparr>) p"
    by (simp add: grunt_file_exists_def existsSync_def node_at_def)
  show ?thesis
    using task_fails_without_cli [OF h, of "[[''images'']]" demo_options]
    by (simp add: grunt_file_exists_def existsSync_def node_at_def issuesPage_def)
qed

section \<open>What the loops leave on the trace\<close>


lemma forEachE_invariant:
  assumes "\<And>x s w. I w \<Longrightarrow> I (snd (callback x s w))" and "I w"
  shows "I (snd (forEachE callback xs s w))"
  using assms(2)
proof (induction xs arbitrary: s w)
  case Nil
  then show ?case by simp
next
  case (Cons x xs)
  have step: "I (snd (callback x s w))" using assms(1) Cons.prems by blast
  show ?case
  proof (cases "callback x s w")
    case (Pair r w1)
    with step have "I w1" by simp
    then show ?thesis using Pair Cons.IH by (cases r) auto
  qed
qed

lemma logged_refl: "logged t t"
  unfolding logged_def by (rule exI [of _ "[]"]) simp

lemma logged_Log: "logged t t' \<Longrightarrow> logged t (t' @ [Log l])"
  unfolding logged_def
proof -
  assume "\<exists>ls. t' = t @ map Log ls"
  then obtain ls where "t' = t @ map Log ls" ..
  then have "t' @ [Log l] = t @ map Log (ls @ [l])" by simp
  then show "\<exists>ls. t' @ [Log l] = t @ map Log ls" ..
qed

lemma logged_map: "logged t t' \<Longrightarrow> logged t (t' @ map Log ms)"
  unfolding logged_def
proof -
  assume "\<exists>ls. t' = t @ map Log ls"
  then obtain ls where "t' = t @ map Log ls" ..
  then have "t' @ map Log ms = t @ map Log (ls @ ms)" by simp
  then show "\<exists>ls. t' @ map Log ms = t @ map Log ls" ..
qed

lemma logged_processes: "logged t t' \<Longrightarrow> processes t' = processes t"
  by (auto simp: logged_def processes_def isProcess_def)

lemma logged_isExec: "logged t t' \<Longrightarrow> filter isExec t' = filter isExec t"
  by (auto simp: logged_def isExec_def)

lemma cacheStep_logged:
  assumes "logged t (trace w)"
  shows "logged t (trace (snd (cacheStep env cache_dir file s w)))"
  using assms
  by (auto simp: cacheStep_def console_log_def Let_def intro: logged_Log
      split: sum.splits prod.splits)

lemma addToCacheStep_logged:
  assumes "logged t (trace w)"
  shows "logged t (trace (snd (addToCacheStep env in_cache_path file s w)))"
  using assms
  by (auto simp: addToCacheStep_def console_log_def Let_def intro: logged_Log
      split: sum.splits prod.splits)

lemma cachePhase_logged: "logged (trace w) (trace (snd (cachePhase env files opts w)))"
proof -
  have loop: "logged (trace w) (trace (snd (forEachE (cacheStep env cache_dir) files s w')))"
    if "logged (trace w) (trace w')" for cache_dir s w'
    using forEachE_invariant [where I = "\<lambda>v. logged (trace w) (trace v)"
        and callback = "cacheStep env cache_dir", OF _ that]
    by (simp add: cacheStep_logged)
  show ?thesis
    using loop by (auto simp: cachePhase_def logged_refl split: option.splits prod.splits sum.splits)
qed

lemma onExit_logged:
  assumes "logged t (trace w)"
  shows "logged t (trace (snd (onExit env files in_cache_path code w)))"
proof (cases "code = Some 0")
  case False
  then show ?thesis using assms by (simp add: onExit_def)
next
  case True
  have start: "logged t (trace (console_log ''ImageOptim done!'' w))"
    using assms by (simp add: console_log_def logged_Log)
  have "logged t (trace (snd (forEachE (addToCacheStep env in_cache_path) files ()
           (console_log ''ImageOptim done!'' w))))"
    using forEachE_invariant [where I = "\<lambda>v. logged t (trace v)"
        and callback = "addToCacheStep env in_cache_path", OF _ start]
    by (simp add: addToCacheStep_logged)
  then show ?thesis using True by (auto simp: onExit_def split: prod.splits sum.splits)
qed

lemma runOptimizer_logged:
  "logged (trace w @ [Spawn ''./imageOptim'' (getCliFlags opts) (cliPath opts) (joinLines files @ [newline])])
     (trace (snd (runOptimizer env files in_cache_path opts w)))"
proof -
  have "logged (t @ [e]) (t @ e # map (\<lambda>message. Log (f message)) ms)"
    for t :: "event list" and e f ms
    using logged_map [OF logged_refl, of "t @ [e]" "map f ms"] by (simp add: comp_def)
  then show ?thesis
    unfolding runOptimizer_def Let_def
    by (intro onExit_logged) (simp add: log_stdout_def)
qed

lemma runOptimizer_processes:
  "processes (trace (snd (runOptimizer env files in_cache_path opts w)))
     = processes (trace w) @ [Spawn ''./imageOptim'' (getCliFlags opts) (cliPath opts) (joinLines files @ [newline])]"
  using logged_processes [OF runOptimizer_logged [of w opts files env in_cache_path]]
  by (simp add: processes_def isProcess_def)

lemma runOptimizer_isExec:
  "filter isExec (trace (snd (runOptimizer env files in_cache_path opts w))) = filter isExec (trace w)"
  using logged_isExec [OF runOptimizer_logged [of w opts files env in_cache_path]]
  by (simp add: isExec_def)

lemma cachePhase_without_cache:
  "\<not> cacheEnabled opts \<Longrightarrow> cachePhase env files opts w = (Inr (files, Map.empty), w)"
  by (auto simp: cacheEnabled_def cachePhase_def split: option.splits)

lemma processFiles_isExec:
  "filter isExec (trace (snd (processFiles env files opts w))) = filter isExec (trace w)"
proof (cases "cachePhase env files opts w")
  case (Pair r w1)
  have w1: "filter isExec (trace w1) = filter isExec (trace w)"
    using logged_isExec [OF cachePhase_logged [of w env files opts]] Pair by simp
  show ?thesis
    using Pair w1 by (cases r) (auto simp: processFiles_def runOptimizer_isExec)
qed

lemma collectDirFiles_children:
  assumes "\<forall>d\<in>set dirs. readdirSync env fsys d = Inr (children d)"
  shows "collectDirFiles env fsys dirs new_files
           = Inr (new_files @ concat (map (\<lambda>d. map (path_join env d) (children d)) dirs))"
  using assms by (induction dirs arbitrary: new_files) (simp_all add: getDirFiles_def)

text \<open>
  C10: without the cache option, \<open>processFiles\<close> on an empty list still starts the
  optimizer, exactly once, and writes a single newline to its standard input. A batch of
  directories without children is such a call.
\<close>

theorem processFiles_empty_without_cache:
  assumes "\<not> cacheEnabled opts" and "\<forall>d\<in>set dirs. readdirSync env (disk w) d = Inr []"
  shows "processes (trace (snd (processFiles env [] opts w)))
           = processes (trace w) @ [Spawn ''./imageOptim'' (getCliFlags opts) (cliPath opts) [newline]]
         \<and> processDirectories env dirs opts w = processFiles env [] opts w"
proof -
  have "processFiles env [] opts w = runOptimizer env [] Map.empty opts w"
    using assms(1) by (simp add: processFiles_def cachePhase_without_cache)
  then have first: "processes (trace (snd (processFiles env [] opts w)))
           = processes (trace w) @ [Spawn ''./imageOptim'' (getCliFlags opts) (cliPath opts) [newline]]"
    using runOptimizer_processes [of env "[]" Map.empty opts w] by simp
  have "collectDirFiles env (disk w) dirs [] = Inr []"
    using collectDirFiles_children [OF assms(2), of "[]"] by simp
  then have "processDirectories env dirs opts w = processFiles env [] opts w"
    by (simp add: processDirectories_def)
  with first show ?thesis by simp
qed

theorem processFiles_empty_without_cache_witness:
  "\<not> cacheEnabled plain_opts
   \<and> readdirSync demo_env (disk demo_world) ''/proj/empty'' = Inr []
   \<and> processes (trace (snd (processFiles demo_env [] plain_opts demo_world)))
       = [Spawn ''./imageOptim'' [''--quit''] demo_cli [newline]]
   \<and> processDirectories demo_env [''/proj/empty''] plain_opts demo_world
       = processFiles demo_env [] plain_opts demo_world"
proof -
  have h1: "\<not> cacheEnabled plain_opts"
    by (simp add: cacheEnabled_def plain_opts_def)
  have h2: "\<forall>d\<in>set [''/proj/empty'']. readdirSync demo_env (disk demo_world) d = Inr []"
    by (simp add: demo_env_def)
  show ?thesis
    using processFiles_empty_without_cache [OF h1 h2] h1 h2
    by (simp add: processes_def demo_world_def getCliFlags_def plain_opts_def)
qed

section \<open>Running the concrete project\<close>

lemma md5FileSync_streaming:
  assumes "streaming env"
  shows "md5FileSync env fsys filename =
           (case node_at env fsys filename of
              None \<Rightarrow> Inl ENOENT
            | Some Dir \<Rightarrow> Inl EISDIR
            | Some (File content) \<Rightarrow> Inr (md5_one_pass env content))"
  using assms by (simp add: md5FileSync_def md5_one_pass_def readLoop_eq split: option.splits node.splits)

lemmas run_defs =
  processFiles_def cachePhase_def cacheStep_def runOptimizer_def onExit_def addToCacheStep_def
  copySync_def ensureDirSync_def existsSync_def node_at_def console_log_def log_stdout_def
  trimTrailingNewlines_def getCliFlags_def cacheEnabled_def md5_one_pass_def Let_def

lemmas demo_defs =
  demo_env_def failing_env_def demo_disk_def demo_world_def demo_spawn_def failing_spawn_def
  demo_opts_def plain_opts_def demo_cli_def hexByte_def hexDigit_def newline_def

lemma demo_cachePhase_b:
  "cachePhase demo_env [''/proj/images/b.png''] demo_opts demo_world
     = (Inr ([], [''/proj/images/b.png'' \<mapsto> ''.cache/0405'']),
        \<lparr>disk = demo_disk(''/proj/images/b.png'' \<mapsto> File [9]),
         trace = [Log ''From cache file b.png'']\<rparr>)"
  by (simp add: run_defs demo_defs md5FileSync_streaming streaming_def)

text \<open>
  C4: with the cache option set, when every candidate was found in the cache, so that
  the list left by the first part of \<open>processFiles\<close> is empty, the promise is resolved
  at once and the trace shows no new process.
\<close>

theorem processFiles_all_cached:
  assumes "cacheEnabled opts"
      and "cachePhase env files opts w = (Inr ([], in_cache_path), w1)"
  shows "processFiles env files opts w = (Resolved, w1)
         \<and> processes (trace w1) = processes (trace w)"
proof -
  have "processes (trace w1) = processes (trace w)"
    using logged_processes [OF cachePhase_logged [of w env files opts]] assms(2) by simp
  then show ?thesis using assms by (simp add: processFiles_def)
qed

theorem processFiles_all_cached_witness:
  "cacheEnabled demo_opts
   \<and> cachePhase demo_env [''/proj/images/b.png''] demo_opts demo_world
       = (Inr ([], [''/proj/images/b.png'' \<mapsto> ''.cache/0405'']),
          \<lparr>disk = demo_disk(''/proj/images/b.png'' \<mapsto> File [9]),
           trace = [Log ''From cache file b.png'']\<rparr>)
   \<and> processFiles demo_env [''/proj/images/b.png''] demo_opts demo_world
       = (Resolved, \<lparr>disk = demo_disk(''/proj/images/b.png'' \<mapsto> File [9]),
                     trace = [Log ''From cache file b.png'']\<rparr>)
   \<and> processes [Log ''From cache file b.png''] = []"
proof -
  have h1: "cacheEnabled demo_opts"
    by (simp add: cacheEnabled_def demo_opts_def)
  show ?thesis
    using processFiles_all_cached [OF h1 demo_cachePhase_b] h1 demo_cachePhase_b
    by (simp add: demo_world_def processes_def)
qed

text \<open>
  C3: when the optimizer is started and ends with any code but 0, the promise is rejected
  with the error of the fixed message, and the handler does nothing else: the disk is
  the one the child left, and the console shows no line after the child's output, so
  nothing was copied into the cache.
\<close>

theorem processFiles_rejects_on_failure:
  assumes "cachePhase env files opts w = (Inr (files', in_cache_path), w1)"
      and "\<not> (cacheEnabled opts \<and> files' = [])"
      and "r = spawn_run env ''./imageOptim'' (getCliFlags opts) (cliPath opts)
                 (joinLines files' @ [newline]) (disk w1)"
      and "exit_code r \<noteq> Some 0"
  shows "processFiles env files opts w
           = (Rejected (Error ''ImageOptim-CLI exited with a failure status''),
              \<lparr>disk = fs_after r,
               trace = trace w1
                 @ [Spawn ''./imageOptim'' (getCliFlags opts) (cliPath opts)
                      (joinLines files' @ [newline])]
                 @ map (\<lambda>message. Log (trimTrailingNewlines message)) (stdout_data r)\<rparr>)"
  using assms
  by (auto simp: processFiles_def runOptimizer_def onExit_def log_stdout_def errorMessage_def Let_def)

lemma failing_cachePhase_a:
  "cachePhase failing_env [''/proj/images/a.png''] demo_opts demo_world
     = (Inr ([''/proj/images/a.png''], [''/proj/images/a.png'' \<mapsto> ''.cache/010203'']), demo_world)"
  by (simp add: run_defs demo_defs md5FileSync_streaming streaming_def)

theorem processFiles_rejects_on_failure_witness:
  "cachePhase failing_env [''/proj/images/a.png''] demo_opts demo_world
     = (Inr ([''/proj/images/a.png''], [''/proj/images/a.png'' \<mapsto> ''.cache/010203'']), demo_world)
   \<and> exit_code (spawn_run failing_env ''./imageOptim'' (getCliFlags demo_opts) (cliPath demo_opts)
                  (joinLines [''/proj/images/a.png''] @ [newline]) (disk demo_world)) = Some 1
   \<and> processFiles failing_env [''/proj/images/a.png''] demo_opts demo_world
       = (Rejected (Error ''ImageOptim-CLI exited with a failure status''),
          \<lparr>disk = demo_disk,
           trace = [Spawn ''./imageOptim'' [] demo_cli (''/proj/images/a.png'' @ [newline])]\<rparr>)"
proof -
  have h2: "\<not> (cacheEnabled demo_opts \<and> [''/proj/images/a.png''] = [])"
    by simp
  have h4: "exit_code (spawn_run failing_env ''./imageOptim'' (getCliFlags demo_opts) (cliPath demo_opts)
                  (joinLines [''/proj/images/a.png''] @ [newline]) (disk demo_world)) \<noteq> Some 0"
    by (simp add: failing_env_def demo_env_def failing_spawn_def)
  show ?thesis
    using processFiles_rejects_on_failure [OF failing_cachePhase_a h2 refl h4] failing_cachePhase_a
    by (simp add: failing_env_def demo_env_def failing_spawn_def demo_world_def demo_opts_def
        getCliFlags_def)
qed

text \<open>
  C9: without the cache option every file goes to the optimizer and \<open>in_cache_path\<close>
  stays empty, so the destination of each file is undefined. When the optimizer ends
  with code 0 on a list that is not empty, the handler still enters the loop that adds to
  the cache: it announces the first file and its copy throws, for the missing
  destination, or for the source when the optimizer has removed the file. The promise is
  never resolved.
\<close>

theorem processFiles_copy_without_cache:
  assumes "\<not> cacheEnabled opts"
      and "r = spawn_run env ''./imageOptim'' (getCliFlags opts) (cliPath opts)
                 (joinLines (file # rest) @ [newline]) (disk w)"
      and "exit_code r = Some 0"
  shows "cachePhase env (file # rest) opts w = (Inr (file # rest, Map.empty), w)
         \<and> processFiles env (file # rest) opts w
             = (Uncaught (if existsSync env (fs_after r) file then TypeError else ENOENT),
                \<lparr>disk = fs_after r,
                 trace = trace w
                   @ [Spawn ''./imageOptim'' (getCliFlags opts) (cliPath opts)
                        (joinLines (file # rest) @ [newline])]
                   @ map (\<lambda>message. Log (trimTrailingNewlines message)) (stdout_data r)
                   @ [Log ''ImageOptim done!'', Log (''Add to cache '' @ path_basename env file)]\<rparr>)"
  using assms
  by (auto simp: processFiles_def cachePhase_without_cache runOptimizer_def onExit_def
      addToCacheStep_def copySync_def existsSync_def console_log_def log_stdout_def Let_def
      split: option.splits)

theorem processFiles_copy_without_cache_witness:
  "\<not> cacheEnabled plain_opts
   \<and> exit_code (spawn_run demo_env ''./imageOptim'' (getCliFlags plain_opts) (cliPath plain_opts)
                  (joinLines [''/proj/images/a.png'', ''/proj/images/b.png''] @ [newline])
                  (disk demo_world)) = Some 0
   \<and> processFiles demo_env [''/proj/images/a.png'', ''/proj/images/b.png''] plain_opts demo_world
       = (Uncaught TypeError,
          \<lparr>disk = demo_disk(''/proj/images/a.png'' \<mapsto> File [1, 2]),
           trace = [Spawn ''./imageOptim'' [''--quit''] demo_cli
                      (''/proj/images/a.png'' @ [newline] @ ''/proj/images/b.png'' @ [newline]),
                    Log ''a.png done'', Log ''ImageOptim done!'', Log ''Add to cache a.png'']\<rparr>)"
proof -
  have h1: "\<not> cacheEnabled plain_opts"
    by (simp add: cacheEnabled_def plain_opts_def)
  have h3: "exit_code (spawn_run demo_env ''./imageOptim'' (getCliFlags plain_opts) (cliPath plain_opts)
                  (joinLines [''/proj/images/a.png'', ''/proj/images/b.png''] @ [newline])
                  (disk demo_world)) = Some 0"
    by (simp add: demo_env_def demo_spawn_def)
  have there: "existsSync demo_env
                 (fs_after (spawn_run demo_env ''./imageOptim'' (getCliFlags plain_opts) (cliPath plain_opts)
                    (joinLines [''/proj/images/a.png'', ''/proj/images/b.png''] @ [newline])
                    (disk demo_world)))
                 ''/proj/images/a.png''"
    by (simp add: existsSync_def node_at_def demo_env_def demo_spawn_def)
  note t = processFiles_copy_without_cache [OF h1 refl h3, THEN conjunct2]
  show ?thesis
  proof (intro conjI)
    show "\<not> cacheEnabled plain_opts" by (rule h1)
    show "exit_code (spawn_run demo_env ''./imageOptim'' (getCliFlags plain_opts) (cliPath plain_opts)
                  (joinLines [''/proj/images/a.png'', ''/proj/images/b.png''] @ [newline])
                  (disk demo_world)) = Some 0"
      by (rule h3)
    have "processFiles demo_env [''/proj/images/a.png'', ''/proj/images/b.png''] plain_opts demo_world
            = (Uncaught TypeError,
               \<lparr>disk = fs_after (spawn_run demo_env ''./imageOptim'' (getCliFlags plain_opts)
                          (cliPath plain_opts)
                          (joinLines [''/proj/images/a.png'', ''/proj/images/b.png''] @ [newline])
                          (disk demo_world)),
                trace = trace demo_world
                   @ [Spawn ''./imageOptim'' (getCliFlags plain_opts) (cliPath plain_opts)
                        (joinLines [''/proj/images/a.png'', ''/proj/images/b.png''] @ [newline])]
                   @ map (\<lambda>message. Log (trimTrailingNewlines message))
                       (stdout_data (spawn_run demo_env ''./imageOptim'' (getCliFlags plain_opts)
                          (cliPath plain_opts)
                          (joinLines [''/proj/images/a.png'', ''/proj/images/b.png''] @ [newline])
                          (disk demo_world)))
                   @ [Log ''ImageOptim done!'',
                      Log (''Add to cache '' @ path_basename demo_env ''/proj/images/a.png'')]\<rparr>)"
      using t there by simp
    then show "processFiles demo_env [''/proj/images/a.png'', ''/proj/images/b.png''] plain_opts demo_world
       = (Uncaught TypeError,
          \<lparr>disk = demo_disk(''/proj/images/a.png'' \<mapsto> File [1, 2]),
           trace = [Spawn ''./imageOptim'' [''--quit''] demo_cli
                      (''/proj/images/a.png'' @ [newline] @ ''/proj/images/b.png'' @ [newline]),
                    Log ''a.png done'', Log ''ImageOptim done!'', Log ''Add to cache a.png'']\<rparr>)"
      by (simp add: demo_env_def demo_spawn_def demo_world_def plain_opts_def getCliFlags_def
          trimTrailingNewlines_def newline_def)
  qed
qed

section \<open>The cache\<close>




lemma cacheStep_result:
  assumes "cacheStep env cache_dir file (files, paths) w = (Inr (files1, paths1), w1)"
  shows "(files1 = files \<or> files1 = files @ [file]) \<and> (\<exists>entry. paths1 = paths(file \<mapsto> entry))"
  using assms
  by (auto simp: cacheStep_def Let_def split: sum.splits prod.splits if_splits)

lemma cacheLoop_result:
  assumes "forEachE (cacheStep env cache_dir) xs (files, paths) w = (Inr (files', paths'), w')"
  shows "(\<exists>added. files' = files @ added \<and> set added \<subseteq> set xs)
         \<and> (\<forall>g. g \<notin> set xs \<longrightarrow> paths' g = paths g)"
  using assms
proof (induction xs arbitrary: files paths w)
  case Nil
  then show ?case by simp
next
  case (Cons x xs)
  from Cons.prems obtain files1 paths1 w1
    where step: "cacheStep env cache_dir x (files, paths) w = (Inr (files1, paths1), w1)"
      and rest: "forEachE (cacheStep env cache_dir) xs (files1, paths1) w1 = (Inr (files', paths'), w')"
    by (auto split: prod.splits sum.splits)
  from cacheStep_result [OF step] obtain entry
    where f1: "files1 = files \<or> files1 = files @ [x]" and p1: "paths1 = paths(x \<mapsto> entry)"
    by blast
  from Cons.IH [OF rest] obtain added
    where a: "files' = files1 @ added" "set added \<subseteq> set xs"
      and p: "\<forall>g. g \<notin> set xs \<longrightarrow> paths' g = paths1 g"
    by blast
  have "\<exists>added'. files' = files @ added' \<and> set added' \<subseteq> set (x # xs)"
  proof (cases "files1 = files")
    case True
    then show ?thesis using a by (intro exI [of _ added]) auto
  next
    case False
    with f1 have "files1 = files @ [x]" by simp
    then show ?thesis using a by (intro exI [of _ "x # added"]) auto
  qed
  moreover have "\<forall>g. g \<notin> set (x # xs) \<longrightarrow> paths' g = paths g"
    using p p1 by simp
  ultimately show ?case by blast
qed


lemma cachePhase_subset:
  assumes "cachePhase env xs opts w = (Inr (files', paths'), w')"
  shows "set files' \<subseteq> set xs"
proof (cases "cacheEnabled opts")
  case False
  then show ?thesis using assms by (simp add: cachePhase_without_cache)
next
  case True
  then obtain cache_dir where c: "cache opts = Some cache_dir" "cache_dir \<noteq> []"
    by (auto simp: cacheEnabled_def split: option.splits)
  from assms c obtain w0
    where "forEachE (cacheStep env cache_dir) xs ([], Map.empty) w0 = (Inr (files', paths'), w')"
    by (auto simp: cachePhase_def split: prod.splits sum.splits)
  from cacheLoop_result [OF this] show ?thesis by auto
qed



lemma processFiles_processes:
  "processes (trace (snd (processFiles env files opts w)))
     = processes (trace w)
       @ (case fst (cachePhase env files opts w) of
            Inl e \<Rightarrow> []
          | Inr (files', paths') \<Rightarrow>
              if cacheEnabled opts \<and> files' = [] then []
              else [Spawn ''./imageOptim'' (getCliFlags opts) (cliPath opts)
                      (joinLines files' @ [newline])])"
proof (cases "cachePhase env files opts w")
  case (Pair r w1)
  have w1: "processes (trace w1) = processes (trace w)"
    using logged_processes [OF cachePhase_logged [of w env files opts]] Pair by simp
  show ?thesis
  proof (cases r)
    case (Inl e)
    then show ?thesis using Pair w1 by (simp add: processFiles_def)
  next
    case (Inr s)
    obtain files' paths' where s: "s = (files', paths')" by (cases s)
    show ?thesis
      using Pair Inr s w1 by (simp add: processFiles_def runOptimizer_processes)
  qed
qed









lemma demo_cachePhase_ab:
  "cachePhase demo_env [''/proj/images/a.png'', ''/proj/images/b.png''] demo_opts demo_world
       = (Inr ([''/proj/images/a.png''],
               [''/proj/images/a.png'' \<mapsto> ''.cache/010203'', ''/proj/images/b.png'' \<mapsto> ''.cache/0405'']),
          \<lparr>disk = demo_disk(''/proj/images/b.png'' \<mapsto> File [9]),
           trace = [Log ''From cache file b.png'']\<rparr>)"
  by (simp add: run_defs demo_defs md5FileSync_streaming streaming_def)







section \<open>Directories\<close>

lemma then_promise_q: "then_promise q_promise callback w =
    (case callback w of (Thrown e, w2) \<Rightarrow> (Rejected e, w2) | (r, w2) \<Rightarrow> (r, w2))"
  by (simp add: then_promise_def q_promise_def)

text \<open>
  C5, as stated, fails: a batch of one directory starts the optimizer with \<^verbatim>\<open>spawn\<close>,
  the paths of the directory's children on its standard input, and runs no command
  through the shell.
\<close>

theorem directory_batch_counterexample:
  "processes (trace (snd (processBatch demo_env demo_disk DirType demo_cli plain_options
                            [''images''] q_promise demo_world)))
     = [Spawn ''./imageOptim'' [''--quit''] demo_cli
          (''/proj/images/a.png'' @ [newline] @ ''/proj/images/b.png'' @ [newline])]
   \<and> filter isExec (trace (snd (processBatch demo_env demo_disk DirType demo_cli plain_options
                            [''images''] q_promise demo_world))) = []"
  by (simp add: processBatch_def isFileType_def toUpperCase_char_def grunt_file_isDir_def
      toAbsolute_def then_promise_q processDirectories_def getDirFiles_def
      run_defs demo_defs plain_options_def processes_def isProcess_def isExec_def)

text \<open>
  C5, amended: a batch of directories is handed to \<open>processDirectories\<close>, which lists
  each directory once, joins every name to its directory, and gives the list of all
  children to \<open>processFiles\<close>. No command is run through the shell, so the variant with
  \<^verbatim>\<open>--directory\<close> is never used. The only process is the one \<open>processFiles\<close> starts
  with \<^verbatim>\<open>spawn\<close>: the flags of the options as arguments, the directory of the optimizer
  as working directory, and on its standard input, joined by newlines and ended by one,
  the list that the cache phase leaves of the children (all of them without the cache
  option); with the cache option no process is started when that list is empty.
\<close>

theorem directories_go_through_processFiles:
  assumes "dirs = map (toAbsolute env) (filter (isFileType env fsys DirType) taskFiles)"
      and "dirs \<noteq> []"
      and "opts = \<lparr>jpegMini = jpegMini options, imageAlpha = imageAlpha options,
                    quitAfter = quitAfter options, cache = cache options, cliPath = cli\<rparr>"
      and "\<forall>d\<in>set dirs. readdirSync env (disk w) d = Inr (children d)"
      and "files = concat (map (\<lambda>d. map (path_join env d) (children d)) dirs)"
  shows "processBatch env fsys DirType cli options taskFiles promise
           = then_promise promise (processDirectories env dirs opts)
         \<and> processDirectories env dirs opts w = processFiles env files opts w
         \<and> filter isExec (trace (snd (processDirectories env dirs opts w))) = filter isExec (trace w)
         \<and> processes (trace (snd (processDirectories env dirs opts w)))
             = processes (trace w)
               @ (case fst (cachePhase env files opts w) of
                    Inl e \<Rightarrow> []
                  | Inr (files', paths') \<Rightarrow>
                      if cacheEnabled options \<and> files' = [] then []
                      else [Spawn ''./imageOptim'' (getCliFlags options) cli
                              (joinLines files' @ [newline])])
         \<and> (case fst (cachePhase env files opts w) of
               Inl e \<Rightarrow> True
             | Inr (files', paths') \<Rightarrow>
                 set files' \<subseteq> set files \<and> (\<not> cacheEnabled options \<longrightarrow> files' = files))"
proof -
  have batch: "processBatch env fsys DirType cli options taskFiles promise
           = then_promise promise (processDirectories env dirs opts)"
    using assms(1,2,3) by (simp add: processBatch_def Let_def)
  have "collectDirFiles env (disk w) dirs [] = Inr files"
    using collectDirFiles_children [OF assms(4), of "[]"] assms(5) by simp
  then have expand: "processDirectories env dirs opts w = processFiles env files opts w"
    by (simp add: processDirectories_def)
  then have shell: "filter isExec (trace (snd (processDirectories env dirs opts w))) = filter isExec (trace w)"
    by (simp add: processFiles_isExec)
  have same: "cacheEnabled opts = cacheEnabled options" "getCliFlags opts = getCliFlags options"
    "cliPath opts = cli"
    using assms(3) by (simp_all add: cacheEnabled_def getCliFlags_def)
  have started: "processes (trace (snd (processDirectories env dirs opts w)))
             = processes (trace w)
               @ (case fst (cachePhase env files opts w) of
                    Inl e \<Rightarrow> []
                  | Inr (files', paths') \<Rightarrow>
                      if cacheEnabled options \<and> files' = [] then []
                      else [Spawn ''./imageOptim'' (getCliFlags options) cli
                              (joinLines files' @ [newline])])"
  proof (cases "cachePhase env files opts w")
    case (Pair r w1)
    show ?thesis
    proof (cases r)
      case (Inl e)
      then show ?thesis
        using processFiles_processes [of env files opts w] expand Pair by simp
    next
      case (Inr s)
      obtain files' paths' where s: "s = (files', paths')" by (cases s)
      show ?thesis
        using processFiles_processes [of env files opts w] expand same Pair Inr s by simp
    qed
  qed
  have list: "case fst (cachePhase env files opts w) of
               Inl e \<Rightarrow> True
             | Inr (files', paths') \<Rightarrow>
                 set files' \<subseteq> set files \<and> (\<not> cacheEnabled options \<longrightarrow> files' = files)"
  proof (cases "cachePhase env files opts w")
    case (Pair r w1)
    show ?thesis
    proof (cases r)
      case (Inl e)
      then show ?thesis using Pair by simp
    next
      case (Inr s)
      obtain files' paths' where s: "s = (files', paths')" by (cases s)
      have "set files' \<subseteq> set files"
        using cachePhase_subset [of env files opts w files' paths' w1] Pair Inr s by simp
      moreover have "files' = files" if "\<not> cacheEnabled options"
        using that same(1) cachePhase_without_cache [of opts env files w] Pair Inr s by simp
      ultimately show ?thesis using Pair Inr s by simp
    qed
  qed
  from batch expand shell started list show ?thesis by simp
qed

lemma demo_opts_from_options:
  "demo_opts = \<lparr>jpegMini = jpegMini demo_options, imageAlpha = imageAlpha demo_options,
                 quitAfter = quitAfter demo_options, cache = cache demo_options,
                 cliPath = demo_cli\<rparr>"
  by (simp add: demo_opts_def demo_options_def)

theorem directories_go_through_processFiles_witness:
  "[''/proj/images''] = map (toAbsolute demo_env) (filter (isFileType demo_env demo_disk DirType) [''images'', ''images/a.png''])
   \<and> readdirSync demo_env (disk demo_world) ''/proj/images'' = Inr [''a.png'', ''b.png'']
   \<and> processBatch demo_env demo_disk DirType demo_cli demo_options [''images'', ''images/a.png''] q_promise
       = then_promise q_promise (processDirectories demo_env [''/proj/images''] demo_opts)
   \<and> processDirectories demo_env [''/proj/images''] demo_opts demo_world
       = processFiles demo_env [''/proj/images/a.png'', ''/proj/images/b.png''] demo_opts demo_world
   \<and> filter isExec (trace (snd (processDirectories demo_env [''/proj/images''] demo_opts demo_world))) = []
   \<and> processes (trace (snd (processDirectories demo_env [''/proj/images''] demo_opts demo_world)))
       = [Spawn ''./imageOptim'' [] demo_cli (''/proj/images/a.png'' @ [newline])]"
proof -
  have h1: "[''/proj/images''] = map (toAbsolute demo_env)
              (filter (isFileType demo_env demo_disk DirType) [''images'', ''images/a.png''])"
    by (simp add: isFileType_def toUpperCase_char_def grunt_file_isDir_def toAbsolute_def
        node_at_def demo_env_def demo_disk_def)
  have h2: "[''/proj/images''] \<noteq> []" by simp
  have h4: "\<forall>d\<in>set [''/proj/images'']. readdirSync demo_env (disk demo_world) d
              = Inr ((\<lambda>d. [''a.png'', ''b.png'']) d)"
    by (simp add: demo_env_def)
  have h5: "[''/proj/images/a.png'', ''/proj/images/b.png'']
              = concat (map (\<lambda>d. map (path_join demo_env d) ((\<lambda>d. [''a.png'', ''b.png'']) d))
                  [''/proj/images''])"
    by (simp add: demo_env_def)
  note t = directories_go_through_processFiles [OF h1 h2 demo_opts_from_options h4 h5, of q_promise]
  show ?thesis
  proof (intro conjI)
    show "[''/proj/images''] = map (toAbsolute demo_env)
              (filter (isFileType demo_env demo_disk DirType) [''images'', ''images/a.png''])"
      by (rule h1)
    show "readdirSync demo_env (disk demo_world) ''/proj/images'' = Inr [''a.png'', ''b.png'']"
      by (simp add: demo_env_def)
    show "processBatch demo_env demo_disk DirType demo_cli demo_options [''images'', ''images/a.png''] q_promise
       = then_promise q_promise (processDirectories demo_env [''/proj/images''] demo_opts)"
      using t by (rule conjunct1)
    show "processDirectories demo_env [''/proj/images''] demo_opts demo_world
       = processFiles demo_env [''/proj/images/a.png'', ''/proj/images/b.png''] demo_opts demo_world"
      using t [THEN conjunct2, THEN conjunct1] .
    show "filter isExec (trace (snd (processDirectories demo_env [''/proj/images''] demo_opts demo_world))) = []"
      using t [THEN conjunct2, THEN conjunct2, THEN conjunct1] by (simp add: demo_world_def)
    show "processes (trace (snd (processDirectories demo_env [''/proj/images''] demo_opts demo_world)))
       = [Spawn ''./imageOptim'' [] demo_cli (''/proj/images/a.png'' @ [newline])]"
      using t [THEN conjunct2, THEN conjunct2, THEN conjunct2, THEN conjunct1]
      by (simp add: demo_cachePhase_ab [unfolded demo_world_def] demo_world_def
          demo_options_def getCliFlags_def processes_def cacheEnabled_def)
  qed
qed

end
